theory Spec2Isabelle
  imports Main "HOL-Library.Word"
begin

section \<open>The CPU emulator of \<^verbatim>\<open>src/components/Computer.tsx\<close>\<close>

text \<open>
  The class \<^verbatim>\<open>CPU\<close> is embedded with explicit state passing: every method takes
  the object and returns the mutated object. The embedding follows the JavaScript
  semantics of the source:
  \<^item> the memory is a \<^verbatim>\<open>Uint8Array\<close>: a fixed-length list of 8-bit words; a read
    outside the array gives \<^verbatim>\<open>undefined\<close>, a write outside is ignored, a stored
    value is reduced modulo 256;
  \<^item> a register holds a JavaScript value: a number, \<^verbatim>\<open>undefined\<close> (the result of
    an out-of-range read), \<^verbatim>\<open>NaN\<close> (arithmetic on \<^verbatim>\<open>undefined\<close>) or an infinity
    (an overflow);
  \<^item> the source's numbers are IEEE doubles. Every finite number the class handles is an
    integer, so a finite number is modelled by the integer it denotes, and \<open>+\<close> and
    \<open>++\<close> round the exact result to the nearest double, ties to the even significand:
    exact up to \<open>2^53\<close> in magnitude, rounded above;
  \<^item> the only exception the class can raise is the \<^verbatim>\<open>TypeError\<close> of calling
    \<^verbatim>\<open>toString\<close> on \<^verbatim>\<open>undefined\<close> while a log message is built; an outcome
    records it, together with the object as mutated up to that point.
\<close>

subsection \<open>JavaScript values\<close>

datatype jsval = Num int | Undefined | NaN | Infinity | NegInfinity

text \<open>The number of binary digits of \<open>n\<close>.\<close>

fun bit_length :: "nat \<Rightarrow> nat" where
  "bit_length n = (if n = 0 then 0 else Suc (bit_length (n div 2)))"

text \<open>
  The magnitude of the double nearest to an integer of magnitude \<open>m\<close>. A double has a
  significand of 53 binary digits: up to \<open>2^53\<close> every integer is a double; above, the
  digits below the 53 leading ones are rounded away, to the nearest, a tie to the even
  significand.
\<close>

definition round_magnitude :: "nat \<Rightarrow> nat" where
  "round_magnitude m =
     (if m \<le> 2 ^ 53 then m
      else
        (let e = bit_length m - 53;
             q = m div 2 ^ e;
             r = m mod 2 ^ e;
             q' = (if 2 ^ e < 2 * r \<or> (2 * r = 2 ^ e \<and> odd q) then q + 1 else q)
         in q' * 2 ^ e))"

text \<open>
  The Number that an arithmetic operation with the exact integer result \<open>n\<close> gives: the
  nearest double, or an infinity when that reaches \<open>2^1024\<close>.
\<close>

definition double_of_int :: "int \<Rightarrow> jsval" where
  "double_of_int n =
     (let m = round_magnitude (nat \<bar>n\<bar>)
      in if 2 ^ 1024 \<le> m then (if n < 0 then NegInfinity else Infinity)
         else Num (if n < 0 then - int m else int m))"

text \<open>\<^verbatim>\<open>x++\<close>: the new value of \<open>x\<close>.\<close>

fun js_incr :: "jsval \<Rightarrow> jsval" where
  "js_incr (Num n) = double_of_int (n + 1)"
| "js_incr Undefined = NaN"
| "js_incr NaN = NaN"
| "js_incr Infinity = Infinity"
| "js_incr NegInfinity = NegInfinity"

text \<open>\<^verbatim>\<open>x + y\<close> on numbers and \<^verbatim>\<open>undefined\<close>.\<close>

fun js_add :: "jsval \<Rightarrow> jsval \<Rightarrow> jsval" where
  "js_add (Num a) (Num b) = double_of_int (a + b)"
| "js_add (Num a) Infinity = Infinity"
| "js_add (Num a) NegInfinity = NegInfinity"
| "js_add Infinity (Num b) = Infinity"
| "js_add NegInfinity (Num b) = NegInfinity"
| "js_add Infinity Infinity = Infinity"
| "js_add NegInfinity NegInfinity = NegInfinity"
| "js_add _ _ = NaN"

text \<open>The conversion applied to a value stored into a \<^verbatim>\<open>Uint8Array\<close> element.\<close>

fun ToUint8 :: "jsval \<Rightarrow> 8 word" where
  "ToUint8 (Num n) = word_of_int n"
| "ToUint8 Undefined = 0"
| "ToUint8 NaN = 0"
| "ToUint8 Infinity = 0"
| "ToUint8 NegInfinity = 0"

subsection \<open>Memory\<close>

text \<open>
  \<open>cells\<close> are the elements of the typed array. \<open>undefined_prop\<close> is the ordinary
  property named \<^verbatim>\<open>"undefined"\<close> that \<^verbatim>\<open>memory[undefined] = v\<close> creates on the
  array object (the key is not a numeric index, so the value is kept as it is).
\<close>

record memory =
  cells :: "8 word list"
  undefined_prop :: "jsval option"

text \<open>
  \<^verbatim>\<open>this.memory.length\<close>. A typed array has at most \<open>2^53 - 1\<close> elements, so its
  length and its indices are numbers that \<open>++\<close> increments exactly; a longer list is no
  typed array, and its length reads as that bound.
\<close>

definition max_array_length :: int where
  "max_array_length = 2 ^ 53 - 1"

definition mem_length :: "memory \<Rightarrow> int" where
  "mem_length m = min (int (length (cells m))) max_array_length"

text \<open>\<^verbatim>\<open>this.memory[k]\<close>\<close>

fun mem_get :: "memory \<Rightarrow> jsval \<Rightarrow> jsval" where
  "mem_get m (Num i) =
     (if 0 \<le> i \<and> i < mem_length m then Num (uint (cells m ! nat i)) else Undefined)"
| "mem_get m Undefined = (case undefined_prop m of None \<Rightarrow> Undefined | Some v \<Rightarrow> v)"
| "mem_get m NaN = Undefined"
| "mem_get m Infinity = Undefined"
| "mem_get m NegInfinity = Undefined"

text \<open>\<^verbatim>\<open>this.memory[k] = v\<close>\<close>

fun mem_set :: "memory \<Rightarrow> jsval \<Rightarrow> jsval \<Rightarrow> memory" where
  "mem_set m (Num i) v =
     (if 0 \<le> i \<and> i < mem_length m then m\<lparr>cells := (cells m)[nat i := ToUint8 v]\<rparr> else m)"
| "mem_set m Undefined v = m\<lparr>undefined_prop := Some v\<rparr>"
| "mem_set m NaN v = m"
| "mem_set m Infinity v = m"
| "mem_set m NegInfinity v = m"

subsection \<open>Instruction set and interrupts\<close>

definition NOOP :: int where "NOOP = 0"
definition LOAD_A_VAL :: int where "LOAD_A_VAL = 1"
definition LOAD_B_VAL :: int where "LOAD_B_VAL = 2"
definition LOAD_A_MEM :: int where "LOAD_A_MEM = 3"
definition LOAD_B_MEM :: int where "LOAD_B_MEM = 4"
definition STORE_A :: int where "STORE_A = 5"
definition STORE_B :: int where "STORE_B = 6"
definition ADD :: int where "ADD = 7"
definition HALT :: int where "HALT = 8"
definition ENABLE_INTERRUPTS :: int where "ENABLE_INTERRUPTS = 9"
definition IRET :: int where "IRET = 10"
definition JMP :: int where "JMP = 11"
definition PUSH_A :: int where "PUSH_A = 12"
definition POP_A :: int where "POP_A = 13"
definition PUSH_B :: int where "PUSH_B = 14"
definition POP_B :: int where "POP_B = 15"

definition TIMER :: int where "TIMER = 1"

definition INTERRUPT_VECTOR_TABLE_START :: int where
  "INTERRUPT_VECTOR_TABLE_START = 0"

definition TIMER_ISR_ADDRESS_POINTER :: int where
  "TIMER_ISR_ADDRESS_POINTER = INTERRUPT_VECTOR_TABLE_START + TIMER"

subsection \<open>The CPU object\<close>

text \<open>
  \<open>A\<close>, \<open>B\<close>, \<open>IR\<close>, \<open>MAR\<close> and \<open>PC\<close> receive values read from memory, so they are
  JavaScript values. \<open>SP\<close> is only ever initialised, incremented and decremented,
  \<open>IE\<close> is only assigned 0 or 1 and \<open>MDR\<close> is never assigned: they are integers.
\<close>

record registers =
  A :: jsval
  B :: jsval
  IR :: jsval
  MAR :: jsval
  MDR :: int
  PC :: jsval
  SP :: int
  IE :: int

text \<open>
  The log message is kept as a structured value with the data the source formats into
  the text, not as the rendered string.
\<close>

datatype log =
    LogWaiting
  | LogProgramLoaded
  | LogInterruptRequested int
  | LogCpuHalted
  | LogInterrupt int jsval
  | LogFetch jsval jsval
  | LogInterruptsEnabled
  | LogIret jsval
  | LogHalt
  | LogUnknown jsval

record cpu =
  memory :: memory
  registers :: registers
  halted :: bool
  interruptQueue :: "int list"
  logMessage :: log

text \<open>
  How a method call ends: it returns, or it raises the \<^verbatim>\<open>TypeError\<close> of
  \<^verbatim>\<open>undefined.toString(16)\<close>. Both carry the object as the call left it.
\<close>

datatype outcome = Returned cpu | TypeError cpu

fun state_of :: "outcome \<Rightarrow> cpu" where
  "state_of (Returned s) = s"
| "state_of (TypeError s) = s"

text \<open>\<^verbatim>\<open>new CPU(memorySize)\<close>\<close>

definition constructor :: "nat \<Rightarrow> cpu" where
  "constructor memorySize =
     \<lparr> memory = \<lparr> cells = replicate memorySize 0, undefined_prop = None \<rparr>,
       registers = \<lparr> A = Num 0, B = Num 0, IR = Num 0, MAR = Num 0, MDR = 0,
                     PC = Num 0, SP = int memorySize - 1, IE = 0 \<rparr>,
       halted = False,
       interruptQueue = [],
       logMessage = LogWaiting \<rparr>"

text \<open>The \<^verbatim>\<open>forEach\<close> of \<^verbatim>\<open>loadProgram\<close>, from index \<open>index\<close> on.\<close>

fun loadBytes :: "memory \<Rightarrow> int \<Rightarrow> nat \<Rightarrow> int list \<Rightarrow> memory" where
  "loadBytes m startAddress index [] = m"
| "loadBytes m startAddress index (v # program) =
     loadBytes
       (if startAddress + int index < mem_length m
        then mem_set m (Num (startAddress + int index)) (Num v) else m)
       startAddress (Suc index) program"

definition loadProgram :: "cpu \<Rightarrow> int list \<Rightarrow> int \<Rightarrow> cpu" where
  "loadProgram s program startAddress =
     s\<lparr> memory := loadBytes (memory s) startAddress 0 program,
        registers := (registers s)\<lparr> PC := Num startAddress \<rparr>,
        logMessage := LogProgramLoaded \<rparr>"

definition requestInterrupt :: "cpu \<Rightarrow> int \<Rightarrow> cpu" where
  "requestInterrupt s interrupt =
     (if interrupt \<notin> set (interruptQueue s)
      then s\<lparr> interruptQueue := interruptQueue s @ [interrupt],
              logMessage := LogInterruptRequested interrupt \<rparr>
      else s)"

definition pushToStack :: "cpu \<Rightarrow> jsval \<Rightarrow> cpu" where
  "pushToStack s v =
     (let s1 = s\<lparr> memory := mem_set (memory s) (Num (SP (registers s))) v \<rparr>
      in if SP (registers s1) > 0
         then s1\<lparr> registers := (registers s1)\<lparr> SP := SP (registers s1) - 1 \<rparr> \<rparr>
         else s1)"

text \<open>\<open>popFromStack\<close> gives the value returned and the object.\<close>

definition popFromStack :: "cpu \<Rightarrow> jsval \<times> cpu" where
  "popFromStack s =
     (let s1 = (if SP (registers s) < mem_length (memory s) - 1
                then s\<lparr> registers := (registers s)\<lparr> SP := SP (registers s) + 1 \<rparr> \<rparr>
                else s)
      in (mem_get (memory s1) (Num (SP (registers s1))), s1))"

definition handleInterrupt :: "cpu \<Rightarrow> outcome" where
  "handleInterrupt s =
     (case interruptQueue s of
        [] \<Rightarrow> Returned s
      | interruptType # rest \<Rightarrow>
          (let s1 = s\<lparr> interruptQueue := rest \<rparr> in
           if interruptType = 0 then Returned s1
           else
             (let s2 = s1\<lparr> registers := (registers s1)\<lparr> IE := 0 \<rparr> \<rparr>;
                  s3 = pushToStack s2 (PC (registers s2));
                  isrAddressPointer = TIMER_ISR_ADDRESS_POINTER;
                  isrAddress = mem_get (memory s3) (Num isrAddressPointer);
                  s4 = s3\<lparr> registers := (registers s3)\<lparr> PC := isrAddress \<rparr> \<rparr>
              in if isrAddress = Undefined then TypeError s4
                 else Returned (s4\<lparr> logMessage := LogInterrupt interruptType isrAddress \<rparr>))))"

definition fetch :: "cpu \<Rightarrow> outcome" where
  "fetch s =
     (let s1 = s\<lparr> registers := (registers s)\<lparr> MAR := PC (registers s) \<rparr> \<rparr>;
          s2 = s1\<lparr> registers := (registers s1)\<lparr> IR := mem_get (memory s1) (MAR (registers s1)) \<rparr> \<rparr>;
          s3 = s2\<lparr> registers := (registers s2)\<lparr> PC := js_incr (PC (registers s2)) \<rparr> \<rparr>
      in if MAR (registers s3) = Undefined then TypeError s3
         else Returned (s3\<lparr> logMessage := LogFetch (IR (registers s3)) (MAR (registers s3)) \<rparr>))"

definition decodeAndExecute :: "cpu \<Rightarrow> outcome" where
  "decodeAndExecute s =
     (let instruction = IR (registers s);
          r = registers s;
          operand1 = mem_get (memory s) (PC r)
      in
      if instruction = Num LOAD_A_VAL then
        Returned (s\<lparr> registers := r\<lparr> A := operand1, PC := js_incr (PC r) \<rparr> \<rparr>)
      else if instruction = Num LOAD_B_VAL then
        Returned (s\<lparr> registers := r\<lparr> B := operand1, PC := js_incr (PC r) \<rparr> \<rparr>)
      else if instruction = Num LOAD_A_MEM then
        Returned (s\<lparr> registers := r\<lparr> A := mem_get (memory s) operand1, PC := js_incr (PC r) \<rparr> \<rparr>)
      else if instruction = Num LOAD_B_MEM then
        Returned (s\<lparr> registers := r\<lparr> B := mem_get (memory s) operand1, PC := js_incr (PC r) \<rparr> \<rparr>)
      else if instruction = Num STORE_A then
        Returned (s\<lparr> memory := mem_set (memory s) operand1 (A r),
                      registers := r\<lparr> PC := js_incr (PC r) \<rparr> \<rparr>)
      else if instruction = Num STORE_B then
        Returned (s\<lparr> memory := mem_set (memory s) operand1 (B r),
                      registers := r\<lparr> PC := js_incr (PC r) \<rparr> \<rparr>)
      else if instruction = Num ADD then
        Returned (s\<lparr> registers := r\<lparr> A := js_add (A r) (B r) \<rparr> \<rparr>)
      else if instruction = Num JMP then
        Returned (s\<lparr> registers := r\<lparr> PC := operand1 \<rparr> \<rparr>)
      else if instruction = Num ENABLE_INTERRUPTS then
        Returned (s\<lparr> registers := r\<lparr> IE := 1 \<rparr>, logMessage := LogInterruptsEnabled \<rparr>)
      else if instruction = Num IRET then
        (let (v, s1) = popFromStack s;
             s2 = s1\<lparr> registers := (registers s1)\<lparr> PC := v, IE := 1 \<rparr> \<rparr>
         in if v = Undefined then TypeError s2
            else Returned (s2\<lparr> logMessage := LogIret v \<rparr>))
      else if instruction = Num PUSH_A then
        Returned (pushToStack s (A r))
      else if instruction = Num POP_A then
        (let (v, s1) = popFromStack s
         in Returned (s1\<lparr> registers := (registers s1)\<lparr> A := v \<rparr> \<rparr>))
      else if instruction = Num PUSH_B then
        Returned (pushToStack s (B r))
      else if instruction = Num POP_B then
        (let (v, s1) = popFromStack s
         in Returned (s1\<lparr> registers := (registers s1)\<lparr> B := v \<rparr> \<rparr>))
      else if instruction = Num HALT then
        Returned (s\<lparr> halted := True, logMessage := LogHalt \<rparr>)
      else if instruction = Num NOOP then
        Returned s
      else
        Returned (s\<lparr> logMessage := LogUnknown instruction \<rparr>))"

definition tick :: "cpu \<Rightarrow> outcome" where
  "tick s =
     (if halted s then Returned (s\<lparr> logMessage := LogCpuHalted \<rparr>)
      else if IE (registers s) = 1 \<and> length (interruptQueue s) > 0 then handleInterrupt s
      else (case fetch s of
              TypeError s1 \<Rightarrow> TypeError s1
            | Returned s1 \<Rightarrow> decodeAndExecute s1))"

subsection \<open>Driving the CPU\<close>

text \<open>
  A driver calls \<open>tick\<close> repeatedly; \<open>ticks n\<close> is \<open>n\<close> calls in a row, stopping at the
  first call that raises.
\<close>

fun ticks :: "nat \<Rightarrow> cpu \<Rightarrow> outcome" where
  "ticks 0 s = Returned s"
| "ticks (Suc n) s =
     (case tick s of
        TypeError s1 \<Rightarrow> TypeError s1
      | Returned s1 \<Rightarrow> ticks n s1)"

text \<open>
  The public operations of the class. A caller that catches the exception of a \<open>tick\<close>
  still holds the object, so \<open>perform\<close> continues from the object either way.
\<close>

datatype operation = LoadProgram "int list" int | RequestInterrupt int | Tick

fun perform :: "cpu \<Rightarrow> operation \<Rightarrow> cpu" where
  "perform s (LoadProgram program startAddress) = loadProgram s program startAddress"
| "perform s (RequestInterrupt interrupt) = requestInterrupt s interrupt"
| "perform s Tick = state_of (tick s)"

text \<open>The object after \<^verbatim>\<open>new CPU(memorySize)\<close> and a sequence of public operations.\<close>

definition run :: "nat \<Rightarrow> operation list \<Rightarrow> cpu" where
  "run memorySize ops = foldl perform (constructor memorySize) ops"

subsection \<open>The stack pointer's range\<close>

text \<open>\<open>SP\<close> is an address of the memory: \<open>SP \<in> [0, C - 1]\<close> for the capacity \<open>C\<close>.\<close>

definition sp_in_range :: "cpu \<Rightarrow> bool" where
  "sp_in_range s \<longleftrightarrow> 0 \<le> SP (registers s) \<and> SP (registers s) \<le> mem_length (memory s) - 1"

text \<open>
  What a method may do to the stack: the capacity stays, and \<open>SP\<close> stays, or goes one
  down from above 0, or one up from below \<open>C - 1\<close>.
\<close>

definition same_stack_frame :: "cpu \<Rightarrow> cpu \<Rightarrow> bool" where
  "same_stack_frame s t \<longleftrightarrow>
     length (cells (memory t)) = length (cells (memory s)) \<and>
     (SP (registers t) = SP (registers s)
      \<or> (0 < SP (registers s) \<and> SP (registers t) = SP (registers s) - 1)
      \<or> (SP (registers s) < mem_length (memory s) - 1 \<and> SP (registers t) = SP (registers s) + 1))"

subsection \<open>Example runs\<close>

text \<open>
  Concrete objects, each built by the public operations from \<^verbatim>\<open>new CPU(256)\<close>. As in
  the sample program of the source, the vector table is loaded at address 0 and the main
  program at \<^verbatim>\<open>0x20\<close>; the entry of the TIMER code is \<^verbatim>\<open>0x80\<close>.
\<close>

text \<open>Interrupts enabled, then a TIMER request; the next tick services it.\<close>

definition timer_pending :: cpu where
  "timer_pending =
     run 256 [LoadProgram [0, 128] 0, LoadProgram [ENABLE_INTERRUPTS, NOOP] 32, Tick,
              RequestInterrupt TIMER]"

text \<open>The same with a request for code 2, whose table entry holds \<^verbatim>\<open>0x90\<close>.\<close>

definition code2_pending :: cpu where
  "code2_pending =
     run 256 [LoadProgram [0, 128, 144] 0, LoadProgram [ENABLE_INTERRUPTS, NOOP] 32, Tick,
              RequestInterrupt 2]"

text \<open>The same with a request for code 0.\<close>

definition code0_pending :: cpu where
  "code0_pending =
     run 256 [LoadProgram [128, 128] 0, LoadProgram [ENABLE_INTERRUPTS, NOOP] 32, Tick,
              RequestInterrupt 0]"

text \<open>Interrupts enabled, the CPU halted, then a TIMER request.\<close>

definition halted_pending :: cpu where
  "halted_pending =
     run 256 [LoadProgram [0, 128] 0, LoadProgram [ENABLE_INTERRUPTS, HALT] 32, Tick, Tick,
              RequestInterrupt TIMER]"

text \<open>A program that starts with \<^verbatim>\<open>LOAD_A_VAL 5\<close>, and one that starts with \<^verbatim>\<open>JMP 0x29\<close>.\<close>

definition load_a_loaded :: cpu where
  "load_a_loaded = run 256 [LoadProgram [LOAD_A_VAL, 5, STORE_A, 16, HALT] 0]"

definition jmp_loaded :: cpu where
  "jmp_loaded = run 256 [LoadProgram [JMP, 41] 0]"

text \<open>The program \<^verbatim>\<open>LOAD_A_VAL 5; STORE_A 0x10; HALT\<close> after its three instructions.\<close>

definition halted_example :: cpu where
  "halted_example = run 256 [LoadProgram [LOAD_A_VAL, 5, STORE_A, 16, HALT] 0, Tick, Tick, Tick]"

text \<open>One push on a fresh CPU.\<close>

definition push_ops :: "operation list" where
  "push_ops = [LoadProgram [PUSH_A, POP_A, POP_A] 0, Tick]"


text \<open>A TIMER interrupt taken from the main program; \<open>PC\<close> is at the \<^verbatim>\<open>IRET\<close> of the routine.\<close>

definition in_service :: cpu where
  "in_service =
     run 256 [LoadProgram [0, 128] 0, LoadProgram [IRET] 128,
              LoadProgram [ENABLE_INTERRUPTS, NOOP] 32, Tick, RequestInterrupt TIMER, Tick]"

text \<open>\<open>PC\<close> at a byte that is no opcode.\<close>



definition data_loaded :: cpu where
  "data_loaded = run 256 [LoadProgram [200] 0]"

text \<open>A TIMER request queued on a fresh CPU.\<close>

definition timer_requested :: cpu where
  "timer_requested = run 256 [RequestInterrupt TIMER]"

text \<open>\<open>A = 300\<close> after an \<^verbatim>\<open>ADD\<close>, with \<open>PC\<close> at \<^verbatim>\<open>STORE_A 0x10\<close>, and at \<^verbatim>\<open>PUSH_A\<close>.\<close>

definition store_ready :: cpu where
  "store_ready =
     run 256 [LoadProgram [LOAD_A_VAL, 200, LOAD_B_VAL, 100, ADD, STORE_A, 16] 0,
              Tick, Tick, Tick]"

definition push_ready :: cpu where
  "push_ready =
     run 256 [LoadProgram [LOAD_A_VAL, 200, LOAD_B_VAL, 100, ADD, PUSH_A] 0,
              Tick, Tick, Tick]"

text \<open>Interrupts enabled, \<open>PC\<close> set to 300 by a load past the memory, a TIMER request.\<close>

definition far_pending :: cpu where
  "far_pending =
     run 256 [LoadProgram [ENABLE_INTERRUPTS, 128] 0, Tick, LoadProgram [] 300,
              RequestInterrupt TIMER]"

section \<open>Basic facts\<close>

text \<open>
  The equations of \<open>mem_get\<close> and \<open>mem_set\<close> split on the address range; they are
  used where a proof needs them, not by default.
\<close>

declare mem_set.simps [simp del] mem_get.simps [simp del]

text \<open>\<open>bit_length\<close> is unfolded on numerals only.\<close>

declare bit_length.simps [simp del]

subsection \<open>Numbers and indices\<close>

lemma double_of_int_exact: "\<bar>n\<bar> \<le> 2 ^ 53 \<Longrightarrow> double_of_int n = Num n"
proof -
  assume b: "\<bar>n\<bar> \<le> 2 ^ 53"
  have "int (nat \<bar>n\<bar>) \<le> int (2 ^ 53)"
    using b by simp
  then have le: "nat \<bar>n\<bar> \<le> 2 ^ 53"
    by (simp only: of_nat_le_iff)
  have m: "round_magnitude (nat \<bar>n\<bar>) = nat \<bar>n\<bar>"
    using le by (simp add: round_magnitude_def)
  have "(2::nat) ^ 53 < 2 ^ 1024"
    by (rule power_strict_increasing) simp_all
  then have small: "\<not> 2 ^ 1024 \<le> nat \<bar>n\<bar>"
    using le by linarith
  show ?thesis
    unfolding double_of_int_def Let_def m using small by simp
qed

text \<open>Above \<open>2^53\<close> the doubles are the even integers: \<open>2^53 + 3\<close> rounds up to \<open>2^53 + 4\<close>.\<close>

lemma double_of_int_rounds_up: "double_of_int 9007199254740995 = Num 9007199254740996"
proof -
  have b: "bit_length 9007199254740995 = 54"
    by (simp add: bit_length.simps)
  show ?thesis
    by (simp add: double_of_int_def round_magnitude_def b Let_def)
qed

lemma mem_length_le_length: "mem_length m \<le> int (length (cells m))"
  by (simp add: mem_length_def)

lemma mem_length_le_max: "mem_length m \<le> 2 ^ 53 - 1"
  by (simp add: mem_length_def max_array_length_def)

lemma mem_length_cong:
  "length (cells m') = length (cells m) \<Longrightarrow> mem_length m' = mem_length m"
  by (simp add: mem_length_def)

lemma index_nat: "0 \<le> i \<Longrightarrow> i < mem_length m \<Longrightarrow> nat i < length (cells m)"
  using mem_length_le_length[of m] by linarith

text \<open>The address of a byte that was read is an index, and the next addresses are numbers.\<close>

lemma index_of_read:
  assumes "mem_get m (Num p) = Num v"
  shows "0 \<le> p" and "p < mem_length m"
    and "double_of_int (p + 1) = Num (p + 1)" and "double_of_int (p + 2) = Num (p + 2)"
proof -
  show 0: "0 \<le> p" and 1: "p < mem_length m"
    using assms by (simp_all add: mem_get.simps split: if_splits)
  have "p \<le> 2 ^ 53 - 2"
    using 1 mem_length_le_max[of m] by linarith
  then show "double_of_int (p + 1) = Num (p + 1)" and "double_of_int (p + 2) = Num (p + 2)"
    using 0 by (simp_all add: double_of_int_exact)
qed

text \<open>The definitions that evaluate a concrete run.\<close>

lemmas eval_defs =
  run_def constructor_def loadProgram_def requestInterrupt_def tick_def fetch_def
  decodeAndExecute_def handleInterrupt_def pushToStack_def popFromStack_def
  mem_get.simps mem_set.simps mem_length_def max_array_length_def double_of_int_exact Let_def
  NOOP_def LOAD_A_VAL_def LOAD_B_VAL_def LOAD_A_MEM_def LOAD_B_MEM_def STORE_A_def
  STORE_B_def ADD_def HALT_def ENABLE_INTERRUPTS_def IRET_def JMP_def PUSH_A_def
  POP_A_def PUSH_B_def POP_B_def
  TIMER_def INTERRUPT_VECTOR_TABLE_START_def TIMER_ISR_ADDRESS_POINTER_def

lemmas InstructionSet_defs =
  NOOP_def LOAD_A_VAL_def LOAD_B_VAL_def LOAD_A_MEM_def LOAD_B_MEM_def STORE_A_def
  STORE_B_def ADD_def HALT_def ENABLE_INTERRUPTS_def IRET_def JMP_def PUSH_A_def
  POP_A_def PUSH_B_def POP_B_def

subsection \<open>One fetch, one instruction\<close>

lemma fetch_num:
  "PC (registers s) = Num p \<Longrightarrow>
   fetch s = Returned (s\<lparr> registers := (registers s)\<lparr> MAR := Num p, IR := mem_get (memory s) (Num p), PC := js_incr (Num p) \<rparr>,
                         logMessage := LogFetch (mem_get (memory s) (Num p)) (Num p) \<rparr>)"
  by (simp add: fetch_def Let_def)

lemma tick_fetch:
  "\<not> halted s \<Longrightarrow> \<not> (IE (registers s) = 1 \<and> interruptQueue s \<noteq> []) \<Longrightarrow> PC (registers s) = Num p \<Longrightarrow>
   tick s = decodeAndExecute (s\<lparr> registers := (registers s)\<lparr> MAR := Num p, IR := mem_get (memory s) (Num p), PC := js_incr (Num p) \<rparr>,
                         logMessage := LogFetch (mem_get (memory s) (Num p)) (Num p) \<rparr>)"
  by (auto simp add: tick_def fetch_num)

lemma exec_LOAD_A_VAL:
  "IR (registers s) = Num LOAD_A_VAL \<Longrightarrow> decodeAndExecute s =
     Returned (s\<lparr> registers := (registers s)\<lparr> A := mem_get (memory s) (PC (registers s)),
                                              PC := js_incr (PC (registers s)) \<rparr> \<rparr>)"
  by (simp add: decodeAndExecute_def Let_def InstructionSet_defs)

lemma exec_LOAD_B_VAL:
  "IR (registers s) = Num LOAD_B_VAL \<Longrightarrow> decodeAndExecute s =
     Returned (s\<lparr> registers := (registers s)\<lparr> B := mem_get (memory s) (PC (registers s)),
                                              PC := js_incr (PC (registers s)) \<rparr> \<rparr>)"
  by (simp add: decodeAndExecute_def Let_def InstructionSet_defs)

lemma exec_LOAD_A_MEM:
  "IR (registers s) = Num LOAD_A_MEM \<Longrightarrow> decodeAndExecute s =
     Returned (s\<lparr> registers := (registers s)\<lparr> A := mem_get (memory s) (mem_get (memory s) (PC (registers s))),
                                              PC := js_incr (PC (registers s)) \<rparr> \<rparr>)"
  by (simp add: decodeAndExecute_def Let_def InstructionSet_defs)

lemma exec_LOAD_B_MEM:
  "IR (registers s) = Num LOAD_B_MEM \<Longrightarrow> decodeAndExecute s =
     Returned (s\<lparr> registers := (registers s)\<lparr> B := mem_get (memory s) (mem_get (memory s) (PC (registers s))),
                                              PC := js_incr (PC (registers s)) \<rparr> \<rparr>)"
  by (simp add: decodeAndExecute_def Let_def InstructionSet_defs)

lemma exec_STORE_A:
  "IR (registers s) = Num STORE_A \<Longrightarrow> decodeAndExecute s =
     Returned (s\<lparr> memory := mem_set (memory s) (mem_get (memory s) (PC (registers s))) (A (registers s)),
                   registers := (registers s)\<lparr> PC := js_incr (PC (registers s)) \<rparr> \<rparr>)"
  by (simp add: decodeAndExecute_def Let_def InstructionSet_defs)

lemma exec_STORE_B:
  "IR (registers s) = Num STORE_B \<Longrightarrow> decodeAndExecute s =
     Returned (s\<lparr> memory := mem_set (memory s) (mem_get (memory s) (PC (registers s))) (B (registers s)),
                   registers := (registers s)\<lparr> PC := js_incr (PC (registers s)) \<rparr> \<rparr>)"
  by (simp add: decodeAndExecute_def Let_def InstructionSet_defs)


lemma exec_JMP:
  "IR (registers s) = Num JMP \<Longrightarrow> decodeAndExecute s =
     Returned (s\<lparr> registers := (registers s)\<lparr> PC := mem_get (memory s) (PC (registers s)) \<rparr> \<rparr>)"
  by (simp add: decodeAndExecute_def Let_def InstructionSet_defs)

lemma exec_IRET:
  "IR (registers s) = Num IRET \<Longrightarrow> decodeAndExecute s =
     (let (v, s1) = popFromStack s;
          s2 = s1\<lparr> registers := (registers s1)\<lparr> PC := v, IE := 1 \<rparr> \<rparr>
      in if v = Undefined then TypeError s2 else Returned (s2\<lparr> logMessage := LogIret v \<rparr>))"
  by (simp add: decodeAndExecute_def Let_def InstructionSet_defs)

lemma exec_PUSH_A:
  "IR (registers s) = Num PUSH_A \<Longrightarrow> decodeAndExecute s = Returned (pushToStack s (A (registers s)))"
  by (simp add: decodeAndExecute_def Let_def InstructionSet_defs)

lemma exec_PUSH_B:
  "IR (registers s) = Num PUSH_B \<Longrightarrow> decodeAndExecute s = Returned (pushToStack s (B (registers s)))"
  by (simp add: decodeAndExecute_def Let_def InstructionSet_defs)

lemma exec_unknown:
  "IR (registers s) = Num b \<Longrightarrow> 16 \<le> b \<Longrightarrow> decodeAndExecute s = Returned (s\<lparr> logMessage := LogUnknown (Num b) \<rparr>)"
  by (simp add: decodeAndExecute_def Let_def InstructionSet_defs)

lemma tick_halted: "halted s \<Longrightarrow> tick s = Returned (s\<lparr> logMessage := LogCpuHalted \<rparr>)"
  by (simp add: tick_def)

subsection \<open>Stack and interrupt service\<close>

lemma pushToStack_memory:
  "memory (pushToStack s v) = mem_set (memory s) (Num (SP (registers s))) v"
  by (simp add: pushToStack_def Let_def)

lemma pushToStack_registers:
  "registers (pushToStack s v) =
     (registers s)\<lparr> SP := (if SP (registers s) > 0 then SP (registers s) - 1 else SP (registers s)) \<rparr>"
  by (simp add: pushToStack_def Let_def)

lemma pushToStack_rest:
  "halted (pushToStack s v) = halted s"
  "interruptQueue (pushToStack s v) = interruptQueue s"
  "logMessage (pushToStack s v) = logMessage s"
  by (simp_all add: pushToStack_def Let_def)

lemma popFromStack_fst:
  "fst (popFromStack s) =
     mem_get (memory s) (Num (if SP (registers s) < mem_length (memory s) - 1
                              then SP (registers s) + 1 else SP (registers s)))"
  by (simp add: popFromStack_def Let_def)

lemma popFromStack_snd:
  "snd (popFromStack s) =
     s\<lparr> registers := (registers s)\<lparr> SP := (if SP (registers s) < mem_length (memory s) - 1
                              then SP (registers s) + 1 else SP (registers s)) \<rparr> \<rparr>"
  by (simp add: popFromStack_def Let_def)

lemma handleInterrupt_service:
  assumes "interruptQueue s = c # q" "c \<noteq> 0"
  shows "memory (state_of (handleInterrupt s)) = mem_set (memory s) (Num (SP (registers s))) (PC (registers s))"
    and "registers (state_of (handleInterrupt s)) =
          (registers s)\<lparr> IE := 0,
             SP := (if SP (registers s) > 0 then SP (registers s) - 1 else SP (registers s)),
             PC := mem_get (mem_set (memory s) (Num (SP (registers s))) (PC (registers s)))
                     (Num TIMER_ISR_ADDRESS_POINTER) \<rparr>"
    and "interruptQueue (state_of (handleInterrupt s)) = q"
    and "halted (state_of (handleInterrupt s)) = halted s"
proof -
  let ?s2 = "s\<lparr> interruptQueue := q, registers := (registers s)\<lparr> IE := 0 \<rparr> \<rparr>"
  let ?s3 = "pushToStack ?s2 (PC (registers s))"
  let ?isr = "mem_get (memory ?s3) (Num TIMER_ISR_ADDRESS_POINTER)"
  let ?s4 = "?s3\<lparr> registers := (registers ?s3)\<lparr> PC := ?isr \<rparr> \<rparr>"
  have h: "handleInterrupt s =
     (if ?isr = Undefined then TypeError ?s4
      else Returned (?s4\<lparr> logMessage := LogInterrupt c ?isr \<rparr>))"
    using assms by (simp add: handleInterrupt_def Let_def)
  have st: "state_of (handleInterrupt s) = ?s4 \<or> state_of (handleInterrupt s) = ?s4\<lparr> logMessage := LogInterrupt c ?isr \<rparr>"
    unfolding h by simp
  show "memory (state_of (handleInterrupt s)) = mem_set (memory s) (Num (SP (registers s))) (PC (registers s))"
    using st by (auto simp add: pushToStack_memory)
  show "registers (state_of (handleInterrupt s)) =
          (registers s)\<lparr> IE := 0,
             SP := (if SP (registers s) > 0 then SP (registers s) - 1 else SP (registers s)),
             PC := mem_get (mem_set (memory s) (Num (SP (registers s))) (PC (registers s)))
                     (Num TIMER_ISR_ADDRESS_POINTER) \<rparr>"
    using st by (auto simp add: pushToStack_memory pushToStack_registers)
  show "interruptQueue (state_of (handleInterrupt s)) = q"
    using st by (auto simp add: pushToStack_rest)
  show "halted (state_of (handleInterrupt s)) = halted s"
    using st by (auto simp add: pushToStack_rest)
qed

lemma tick_interrupt:
  "\<not> halted s \<Longrightarrow> IE (registers s) = 1 \<Longrightarrow> interruptQueue s \<noteq> [] \<Longrightarrow> tick s = handleInterrupt s"
  by (simp add: tick_def)

subsection \<open>The capacity and the stack pointer are kept\<close>

lemma length_cells_mem_set: "length (cells (mem_set m k v)) = length (cells m)"
  by (cases k) (simp_all add: mem_set.simps)

lemma mem_length_mem_set: "mem_length (mem_set m k v) = mem_length m"
  by (simp add: mem_length_def length_cells_mem_set)

lemma length_cells_loadBytes:
  "length (cells (loadBytes m startAddress index program)) = length (cells m)"
  by (induction program arbitrary: m index) (simp_all add: length_cells_mem_set)

lemma mem_length_loadBytes: "mem_length (loadBytes m startAddress index program) = mem_length m"
  by (simp add: mem_length_def length_cells_loadBytes)

lemma same_stack_frame_mem_length:
  "same_stack_frame s t \<Longrightarrow> mem_length (memory t) = mem_length (memory s)"
  by (simp add: same_stack_frame_def mem_length_def)

lemma same_stack_frame_in_range:
  "same_stack_frame s t \<Longrightarrow> sp_in_range s \<Longrightarrow> sp_in_range t"
  using same_stack_frame_mem_length[of s t]
  by (auto simp add: same_stack_frame_def sp_in_range_def)

lemma same_stack_frame_capacity:
  assumes "same_stack_frame s t" "length (cells (memory s)) = C"
    "0 \<le> SP (registers s)" "SP (registers s) \<le> int C - 1"
  shows "length (cells (memory t)) = C \<and> 0 \<le> SP (registers t) \<and> SP (registers t) \<le> int C - 1"
  using assms mem_length_le_length[of "memory s"]
  by (auto simp add: same_stack_frame_def)

lemma frame_pushToStack: "same_stack_frame s (pushToStack s v)"
  by (simp add: same_stack_frame_def pushToStack_memory pushToStack_registers length_cells_mem_set)

lemma frame_popFromStack: "same_stack_frame s (snd (popFromStack s))"
  by (simp add: same_stack_frame_def popFromStack_snd)

lemma frame_decodeAndExecute: "same_stack_frame s (state_of (decodeAndExecute s))"
proof -
  have push: "\<And>v. same_stack_frame s (pushToStack s v)" by (rule frame_pushToStack)
  have pop: "same_stack_frame s (snd (popFromStack s))" by (rule frame_popFromStack)
  show ?thesis
    using push pop
    by (simp add: decodeAndExecute_def Let_def same_stack_frame_def length_cells_mem_set
        split_beta popFromStack_snd)
qed

lemma fetch_keeps_stack:
  "memory (state_of (fetch s)) = memory s"
  "SP (registers (state_of (fetch s))) = SP (registers s)"
  by (simp_all add: fetch_def Let_def)

lemma frame_handleInterrupt: "same_stack_frame s (state_of (handleInterrupt s))"
  by (simp add: handleInterrupt_def Let_def same_stack_frame_def pushToStack_memory
      pushToStack_registers length_cells_mem_set split: list.splits)

lemma frame_tick: "same_stack_frame s (state_of (tick s))"
proof -
  have d: "same_stack_frame s (state_of (decodeAndExecute (state_of (fetch s))))"
    using frame_decodeAndExecute[of "state_of (fetch s)"]
    by (simp add: same_stack_frame_def fetch_keeps_stack mem_length_def)
  have f: "same_stack_frame s (state_of (fetch s))"
    by (simp add: same_stack_frame_def fetch_keeps_stack)
  have h: "same_stack_frame s (s\<lparr> logMessage := LogCpuHalted \<rparr>)"
    by (simp add: same_stack_frame_def)
  have t: "tick s = Returned (s\<lparr> logMessage := LogCpuHalted \<rparr>) \<or> tick s = handleInterrupt s
           \<or> tick s = fetch s \<or> tick s = decodeAndExecute (state_of (fetch s))"
    by (cases "fetch s") (simp_all add: tick_def)
  show ?thesis
    using t d f h frame_handleInterrupt[of s] by auto
qed

lemma frame_perform: "same_stack_frame s (perform s op)"
proof (cases op)
  case (LoadProgram program startAddress)
  then show ?thesis
    by (simp add: same_stack_frame_def loadProgram_def length_cells_loadBytes)
next
  case (RequestInterrupt c)
  then show ?thesis
    by (simp add: same_stack_frame_def requestInterrupt_def)
next
  case Tick
  then show ?thesis
    by (simp add: frame_tick)
qed

lemma perform_in_range:
  assumes "sp_in_range s"
  shows "sp_in_range (perform s op) \<and> mem_length (memory (perform s op)) = mem_length (memory s)"
  using same_stack_frame_in_range[OF frame_perform assms]
    same_stack_frame_mem_length[OF frame_perform] by simp

lemma foldl_perform_in_range:
  "sp_in_range s \<Longrightarrow>
   sp_in_range (foldl perform s ops) \<and> mem_length (memory (foldl perform s ops)) = mem_length (memory s)"
proof (induction ops arbitrary: s)
  case Nil
  then show ?case by simp
next
  case (Cons op ops)
  have p: "sp_in_range (perform s op)" "mem_length (memory (perform s op)) = mem_length (memory s)"
    using perform_in_range[OF Cons.prems] by simp_all
  show ?case
    using Cons.IH[OF p(1)] p(2) by simp
qed

lemma foldl_perform_capacity:
  "length (cells (memory s)) = C \<Longrightarrow> 0 \<le> SP (registers s) \<Longrightarrow> SP (registers s) \<le> int C - 1 \<Longrightarrow>
   length (cells (memory (foldl perform s ops))) = C
   \<and> 0 \<le> SP (registers (foldl perform s ops)) \<and> SP (registers (foldl perform s ops)) \<le> int C - 1"
proof (induction ops arbitrary: s)
  case Nil
  then show ?case by simp
next
  case (Cons op ops)
  have p: "length (cells (memory (perform s op))) = C" "0 \<le> SP (registers (perform s op))"
    "SP (registers (perform s op)) \<le> int C - 1"
    using same_stack_frame_capacity[OF frame_perform Cons.prems] by simp_all
  show ?case
    using Cons.IH[OF p] by simp
qed

subsection \<open>The interrupt queue\<close>

lemma queue_decodeAndExecute:
  "interruptQueue (state_of (decodeAndExecute s)) = interruptQueue s"
  by (simp add: decodeAndExecute_def Let_def split_beta pushToStack_rest popFromStack_snd)

lemma queue_fetch: "interruptQueue (state_of (fetch s)) = interruptQueue s"
  by (simp add: fetch_def Let_def)

lemma queue_handleInterrupt:
  "interruptQueue (state_of (handleInterrupt s)) = tl (interruptQueue s)"
  by (simp add: handleInterrupt_def Let_def pushToStack_rest split: list.splits)

lemma queue_tick:
  "interruptQueue (state_of (tick s)) = interruptQueue s
   \<or> interruptQueue (state_of (tick s)) = tl (interruptQueue s)"
proof -
  have t: "tick s = Returned (s\<lparr> logMessage := LogCpuHalted \<rparr>) \<or> tick s = handleInterrupt s
           \<or> tick s = fetch s \<or> tick s = decodeAndExecute (state_of (fetch s))"
    by (cases "fetch s") (simp_all add: tick_def)
  have d: "interruptQueue (state_of (decodeAndExecute (state_of (fetch s)))) = interruptQueue s"
    by (simp add: queue_decodeAndExecute queue_fetch)
  show ?thesis
    using t d queue_fetch[of s] queue_handleInterrupt[of s] by auto
qed

lemma distinct_requestInterrupt:
  "distinct (interruptQueue s) \<Longrightarrow> distinct (interruptQueue (requestInterrupt s c))"
  by (simp add: requestInterrupt_def)

lemma distinct_perform:
  assumes "distinct (interruptQueue s)"
  shows "distinct (interruptQueue (perform s op))"
proof (cases op)
  case (LoadProgram program startAddress)
  then show ?thesis using assms by (simp add: loadProgram_def)
next
  case (RequestInterrupt c)
  then show ?thesis using assms by (simp add: distinct_requestInterrupt)
next
  case Tick
  then show ?thesis
    using assms queue_tick[of s] by (auto simp add: distinct_tl)
qed

lemma distinct_foldl_perform:
  "distinct (interruptQueue s) \<Longrightarrow> distinct (interruptQueue (foldl perform s ops))"
  by (induction ops arbitrary: s) (simp_all add: distinct_perform)

lemma count_list_distinct: "distinct xs \<Longrightarrow> x \<in> set xs \<Longrightarrow> count_list xs x = 1"
  by (induction xs) (auto simp add: count_list_0_iff)

subsection \<open>Bytes in memory\<close>

lemma mem_get_is_byte:
  assumes "0 \<le> i" "i < mem_length m"
  shows "\<exists>n. mem_get m (Num i) = Num n \<and> 0 \<le> n \<and> n \<le> 255"
proof -
  have "uint (cells m ! nat i) < 2 ^ 8"
    using uint_lt2p[of "cells m ! nat i"] by simp
  then have "uint (cells m ! nat i) \<le> 255" by simp
  then show ?thesis
    using assms by (simp add: mem_get.simps)
qed

lemma mem_get_mem_set_same:
  assumes "0 \<le> i" "i < mem_length m"
  shows "mem_get (mem_set m (Num i) (Num v)) (Num i) = Num (v mod 256)"
proof -
  have n: "nat i < length (cells m)"
    using assms by (rule index_nat)
  have w: "mem_set m (Num i) (Num v) = m\<lparr>cells := (cells m)[nat i := word_of_int v]\<rparr>"
    using assms by (simp add: mem_set.simps)
  have l: "mem_length (m\<lparr>cells := (cells m)[nat i := word_of_int v]\<rparr>) = mem_length m"
    by (simp add: mem_length_def)
  show ?thesis
    unfolding w using assms n by (simp add: mem_get.simps l uint_word_of_int)
qed

lemma loadBytes_below:
  "0 \<le> a \<Longrightarrow> a < startAddress + int index \<Longrightarrow>
   cells (loadBytes m startAddress index program) ! nat a = cells m ! nat a"
proof (induction program arbitrary: m index)
  case Nil
  then show ?case by simp
next
  case (Cons v program)
  let ?m = "if startAddress + int index < mem_length m
            then mem_set m (Num (startAddress + int index)) (Num v) else m"
  have "cells (loadBytes ?m startAddress (Suc index) program) ! nat a = cells ?m ! nat a"
    using Cons.prems by (intro Cons.IH) simp_all
  moreover have "cells ?m ! nat a = cells m ! nat a"
    using Cons.prems by (simp add: mem_set.simps)
  ultimately show ?case by simp
qed

lemma loadBytes_stored:
  "k < length program \<Longrightarrow> 0 \<le> startAddress + int index + int k \<Longrightarrow>
   startAddress + int index + int k < mem_length m \<Longrightarrow>
   cells (loadBytes m startAddress index program) ! nat (startAddress + int index + int k)
     = word_of_int (program ! k)"
proof (induction program arbitrary: m index k)
  case Nil
  then show ?case by simp
next
  case (Cons v program)
  let ?m = "if startAddress + int index < mem_length m
            then mem_set m (Num (startAddress + int index)) (Num v) else m"
  have len: "mem_length ?m = mem_length m"
    by (simp add: mem_length_mem_set)
  show ?case
  proof (cases k)
    case 0
    have "cells (loadBytes ?m startAddress (Suc index) program) ! nat (startAddress + int index)
            = cells ?m ! nat (startAddress + int index)"
      using Cons.prems 0 by (intro loadBytes_below) simp_all
    moreover have "cells ?m ! nat (startAddress + int index) = word_of_int v"
      using Cons.prems 0 index_nat[of "startAddress + int index" m]
      by (simp add: mem_set.simps)
    ultimately show ?thesis using 0 by simp
  next
    case (Suc j)
    have e: "startAddress + int index + int (Suc j) = startAddress + int (Suc index) + int j"
      by simp
    have "cells (loadBytes ?m startAddress (Suc index) program)
            ! nat (startAddress + int (Suc index) + int j) = word_of_int (program ! j)"
      using Cons.prems Suc len by (intro Cons.IH) simp_all
    then show ?thesis
      unfolding e Suc by (simp only: loadBytes.simps nth_Cons_Suc)
  qed
qed

lemma loadProgram_stored:
  assumes "k < length program" "0 \<le> startAddress + int k"
    "startAddress + int k < mem_length (memory s)"
  shows "mem_get (memory (loadProgram s program startAddress)) (Num (startAddress + int k))
           = Num (program ! k mod 256)"
proof -
  have "cells (loadBytes (memory s) startAddress 0 program) ! nat (startAddress + int 0 + int k)
          = word_of_int (program ! k)"
    using assms by (intro loadBytes_stored) simp_all
  then show ?thesis
    using assms
    by (simp add: loadProgram_def mem_get.simps mem_length_loadBytes uint_word_of_int)
qed

lemma store_tick:
  assumes "\<not> halted s" "\<not> (IE (registers s) = 1 \<and> interruptQueue s \<noteq> [])"
    "PC (registers s) = Num p" "mem_get (memory s) (Num p) = Num opcode"
    "mem_get (memory s) (Num (p + 1)) = Num addr" "0 \<le> addr" "addr < mem_length (memory s)"
    "(opcode = STORE_A \<and> A (registers s) = Num a) \<or> (opcode = STORE_B \<and> B (registers s) = Num a)"
  shows "mem_get (memory (state_of (tick s))) (Num addr) = Num (a mod 256)"
proof -
  let ?f = "s\<lparr> registers := (registers s)\<lparr> MAR := Num p, IR := Num opcode, PC := Num (p + 1) \<rparr>,
               logMessage := LogFetch (Num opcode) (Num p) \<rparr>"
  have t: "tick s = decodeAndExecute ?f"
    using assms by (simp add: tick_fetch index_of_read(3)[OF assms(4)])
  have ir: "IR (registers ?f) = Num opcode" by simp
  have m: "memory (state_of (tick s)) = mem_set (memory s) (Num addr) (Num a)"
    using assms(5,8) ir by (auto simp add: t exec_STORE_A exec_STORE_B)
  show ?thesis
    unfolding m using assms(6,7) by (rule mem_get_mem_set_same)
qed

lemma push_tick:
  assumes "\<not> halted s" "\<not> (IE (registers s) = 1 \<and> interruptQueue s \<noteq> [])"
    "PC (registers s) = Num p" "mem_get (memory s) (Num p) = Num opcode" "sp_in_range s"
    "(opcode = PUSH_A \<and> A (registers s) = Num a) \<or> (opcode = PUSH_B \<and> B (registers s) = Num a)"
  shows "mem_get (memory (state_of (tick s))) (Num (SP (registers s))) = Num (a mod 256)"
proof -
  let ?f = "s\<lparr> registers := (registers s)\<lparr> MAR := Num p, IR := Num opcode, PC := Num (p + 1) \<rparr>,
               logMessage := LogFetch (Num opcode) (Num p) \<rparr>"
  have t: "tick s = decodeAndExecute ?f"
    using assms by (simp add: tick_fetch index_of_read(3)[OF assms(4)])
  have ir: "IR (registers ?f) = Num opcode" by simp
  have m: "memory (state_of (tick s)) = mem_set (memory s) (Num (SP (registers s))) (Num a)"
    using assms(6) ir by (auto simp add: t exec_PUSH_A exec_PUSH_B pushToStack_memory)
  show ?thesis
    unfolding m using assms(5) by (intro mem_get_mem_set_same) (simp_all add: sp_in_range_def)
qed

lemma interrupt_push:
  assumes "\<not> halted s" "IE (registers s) = 1" "interruptQueue s = c # q" "c \<noteq> 0"
    "sp_in_range s" "PC (registers s) = Num pc"
  shows "mem_get (memory (state_of (tick s))) (Num (SP (registers s))) = Num (pc mod 256)"
proof -
  have t: "tick s = handleInterrupt s"
    using assms by (simp add: tick_interrupt)
  have m: "memory (state_of (tick s)) = mem_set (memory s) (Num (SP (registers s))) (Num pc)"
    unfolding t handleInterrupt_service(1)[OF assms(3,4)] using assms(6) by simp
  show ?thesis
    unfolding m using assms(5) by (intro mem_get_mem_set_same) (simp_all add: sp_in_range_def)
qed

lemma pushToStack_stored:
  assumes "sp_in_range s"
  shows "mem_get (memory (pushToStack s (Num v))) (Num (SP (registers s))) = Num (v mod 256)"
  unfolding pushToStack_memory
  using assms by (intro mem_get_mem_set_same) (simp_all add: sp_in_range_def)

subsection \<open>A run that reaches \<open>2^53\<close>\<close>








section \<open>The claims\<close>

text \<open>
  C1 (as stated, refuted). The claim: in every state with \<open>IE = 1\<close> and a non-empty
  queue, \<open>tick\<close> services the earliest code \<open>c\<close> and sets \<open>PC\<close> to \<open>Memory[0 + c]\<close>, for
  every code. Three runs show otherwise. With code 2 pending, \<open>tick\<close> sets \<open>PC\<close> to
  the TIMER entry \<open>Memory[1] = 0x80\<close>, not to \<open>Memory[0 + 2] = 0x90\<close>. With code 0
  pending, \<open>tick\<close> removes the code and does nothing else: \<open>IE\<close> stays 1, \<open>PC\<close> and
  \<open>SP\<close> stay. On a halted CPU with \<open>IE = 1\<close> and TIMER pending, \<open>tick\<close> services
  nothing: the queue, \<open>IE\<close> and \<open>PC\<close> stay.
\<close>

theorem interrupt_service_counterexample:
  "(\<not> halted code2_pending \<and> IE (registers code2_pending) = 1
      \<and> interruptQueue code2_pending = [2]
      \<and> PC (registers (state_of (tick code2_pending))) = Num 128
      \<and> mem_get (memory (state_of (tick code2_pending))) (Num (INTERRUPT_VECTOR_TABLE_START + 2))
          = Num 144
      \<and> PC (registers (state_of (tick code2_pending))) \<noteq>
          mem_get (memory (state_of (tick code2_pending))) (Num (INTERRUPT_VECTOR_TABLE_START + 2)))
   \<and> (\<not> halted code0_pending \<and> IE (registers code0_pending) = 1
      \<and> interruptQueue code0_pending = [0]
      \<and> PC (registers code0_pending) = Num 33 \<and> SP (registers code0_pending) = 255
      \<and> interruptQueue (state_of (tick code0_pending)) = []
      \<and> IE (registers (state_of (tick code0_pending))) = 1
      \<and> PC (registers (state_of (tick code0_pending))) = Num 33
      \<and> SP (registers (state_of (tick code0_pending))) = 255)
   \<and> (halted halted_pending \<and> IE (registers halted_pending) = 1
      \<and> interruptQueue halted_pending = [TIMER]
      \<and> PC (registers halted_pending) = Num 34
      \<and> interruptQueue (state_of (tick halted_pending)) = [TIMER]
      \<and> IE (registers (state_of (tick halted_pending))) = 1
      \<and> PC (registers (state_of (tick halted_pending))) = Num 34)"
proof -
  have a: "\<not> halted code2_pending \<and> IE (registers code2_pending) = 1
      \<and> interruptQueue code2_pending = [2]
      \<and> PC (registers (state_of (tick code2_pending))) = Num 128
      \<and> mem_get (memory (state_of (tick code2_pending))) (Num (INTERRUPT_VECTOR_TABLE_START + 2))
          = Num 144
      \<and> PC (registers (state_of (tick code2_pending))) \<noteq>
          mem_get (memory (state_of (tick code2_pending))) (Num (INTERRUPT_VECTOR_TABLE_START + 2))"
    by (simp add: code2_pending_def eval_defs)
  have b: "\<not> halted code0_pending \<and> IE (registers code0_pending) = 1
      \<and> interruptQueue code0_pending = [0]
      \<and> PC (registers code0_pending) = Num 33 \<and> SP (registers code0_pending) = 255
      \<and> interruptQueue (state_of (tick code0_pending)) = []
      \<and> IE (registers (state_of (tick code0_pending))) = 1
      \<and> PC (registers (state_of (tick code0_pending))) = Num 33
      \<and> SP (registers (state_of (tick code0_pending))) = 255"
    by (simp add: code0_pending_def eval_defs)
  have c: "halted halted_pending \<and> IE (registers halted_pending) = 1
      \<and> interruptQueue halted_pending = [TIMER]
      \<and> PC (registers halted_pending) = Num 34
      \<and> interruptQueue (state_of (tick halted_pending)) = [TIMER]
      \<and> IE (registers (state_of (tick halted_pending))) = 1
      \<and> PC (registers (state_of (tick halted_pending))) = Num 34"
    by (simp add: halted_pending_def eval_defs)
  show ?thesis using a b c by blast
qed

text \<open>
  C1 (amended). In every state that is not halted, with \<open>IE = 1\<close> and a queue whose
  earliest code \<open>c\<close> is not 0, \<open>tick\<close> performs interrupt service and no fetch: it
  removes \<open>c\<close> from the front of the queue, sets \<open>IE\<close> to 0, writes \<open>PC\<close> at \<open>SP\<close>,
  decrements \<open>SP\<close> unless it is 0, and sets \<open>PC\<close> to the TIMER entry of the vector
  table, \<open>Memory[0 + TIMER]\<close>, read after the push, whatever the code; for \<open>c = TIMER\<close>
  that is \<open>Memory[0 + c]\<close>. \<open>A\<close>, \<open>B\<close>, \<open>IR\<close>, \<open>MAR\<close> and the halted flag stay.
\<close>

theorem interrupt_service:
  assumes "\<not> halted s" "IE (registers s) = 1" "interruptQueue s = c # q" "c \<noteq> 0"
  shows "interruptQueue (state_of (tick s)) = q
       \<and> IE (registers (state_of (tick s))) = 0
       \<and> memory (state_of (tick s)) = mem_set (memory s) (Num (SP (registers s))) (PC (registers s))
       \<and> SP (registers (state_of (tick s))) =
           (if SP (registers s) > 0 then SP (registers s) - 1 else SP (registers s))
       \<and> PC (registers (state_of (tick s))) =
           mem_get (memory (state_of (tick s))) (Num (INTERRUPT_VECTOR_TABLE_START + TIMER))
       \<and> (c = TIMER \<longrightarrow> PC (registers (state_of (tick s))) =
           mem_get (memory (state_of (tick s))) (Num (INTERRUPT_VECTOR_TABLE_START + c)))
       \<and> A (registers (state_of (tick s))) = A (registers s)
       \<and> B (registers (state_of (tick s))) = B (registers s)
       \<and> IR (registers (state_of (tick s))) = IR (registers s)
       \<and> MAR (registers (state_of (tick s))) = MAR (registers s)
       \<and> halted (state_of (tick s)) = halted s"
proof -
  have t: "tick s = handleInterrupt s"
    using assms by (simp add: tick_interrupt)
  note hs = handleInterrupt_service[OF assms(3,4)]
  show ?thesis
    unfolding t hs by (simp add: TIMER_ISR_ADDRESS_POINTER_def)
qed

theorem interrupt_service_witness:
  "\<not> halted timer_pending \<and> IE (registers timer_pending) = 1
   \<and> interruptQueue timer_pending = TIMER # [] \<and> TIMER \<noteq> 0
   \<and> SP (registers timer_pending) = 255 \<and> PC (registers timer_pending) = Num 33
   \<and> interruptQueue (state_of (tick timer_pending)) = []
   \<and> IE (registers (state_of (tick timer_pending))) = 0
   \<and> memory (state_of (tick timer_pending)) = mem_set (memory timer_pending) (Num 255) (Num 33)
   \<and> SP (registers (state_of (tick timer_pending))) = 254
   \<and> PC (registers (state_of (tick timer_pending))) = Num 128"
proof -
  have h: "\<not> halted timer_pending" "IE (registers timer_pending) = 1"
    "interruptQueue timer_pending = TIMER # []" "TIMER \<noteq> 0"
    by (simp_all add: timer_pending_def eval_defs)
  have v: "SP (registers timer_pending) = 255" "PC (registers timer_pending) = Num 33"
    "mem_get (mem_set (memory timer_pending) (Num 255) (Num 33)) (Num (INTERRUPT_VECTOR_TABLE_START + TIMER)) = Num 128"
    by (simp_all add: timer_pending_def eval_defs)
  show ?thesis
    using interrupt_service[OF h] h v by simp
qed

text \<open>
  C2 (as stated, refuted). The claim: after the tick that executes a two-byte opcode
  fetched at \<open>p\<close>, \<open>JMP\<close> included, \<open>PC = p + 2\<close>. With \<^verbatim>\<open>JMP 0x29\<close> loaded at
  address 0, the tick leaves \<open>PC = 0x29\<close>, not 2.
\<close>

theorem two_byte_pc_counterexample:
  "\<not> halted jmp_loaded \<and> \<not> (IE (registers jmp_loaded) = 1 \<and> interruptQueue jmp_loaded \<noteq> [])
   \<and> PC (registers jmp_loaded) = Num 0
   \<and> mem_get (memory jmp_loaded) (Num 0) = Num JMP
   \<and> tick jmp_loaded = Returned (state_of (tick jmp_loaded))
   \<and> PC (registers (state_of (tick jmp_loaded))) = Num 41
   \<and> PC (registers (state_of (tick jmp_loaded))) \<noteq> Num (0 + 2)"
  by (simp add: jmp_loaded_def eval_defs)

text \<open>
  C2 (amended). In a fetch-execute tick (not halted, no interrupt to service) that
  fetches a two-byte opcode at address \<open>p\<close>, the tick returns and leaves
  \<open>PC = p + 2\<close> for \<open>LOAD_A_VAL\<close>, \<open>LOAD_B_VAL\<close>, \<open>LOAD_A_MEM\<close>, \<open>LOAD_B_MEM\<close>,
  \<open>STORE_A\<close> and \<open>STORE_B\<close>; for \<open>JMP\<close> it leaves \<open>PC\<close> equal to the operand, the value
  read at \<open>p + 1\<close>, with no further increment.
\<close>

theorem two_byte_pc:
  assumes "\<not> halted s" "\<not> (IE (registers s) = 1 \<and> interruptQueue s \<noteq> [])"
    "PC (registers s) = Num p" "mem_get (memory s) (Num p) = Num opcode"
    "opcode \<in> {LOAD_A_VAL, LOAD_B_VAL, LOAD_A_MEM, LOAD_B_MEM, STORE_A, STORE_B, JMP}"
  shows "\<exists>s'. tick s = Returned s'
           \<and> PC (registers s') =
               (if opcode = JMP then mem_get (memory s) (Num (p + 1)) else Num (p + 2))"
proof -
  let ?f = "s\<lparr> registers := (registers s)\<lparr> MAR := Num p, IR := Num opcode, PC := Num (p + 1) \<rparr>,
               logMessage := LogFetch (Num opcode) (Num p) \<rparr>"
  let ?goal = "\<exists>s'. tick s = Returned s'
           \<and> PC (registers s') =
               (if opcode = JMP then mem_get (memory s) (Num (p + 1)) else Num (p + 2))"
  have t: "tick s = decodeAndExecute ?f"
    using assms by (simp add: tick_fetch index_of_read(3)[OF assms(4)])
  have ir: "IR (registers ?f) = Num opcode" "double_of_int (2 + p) = Num (p + 2)"
    using index_of_read(4)[OF assms(4)] by (simp_all add: add.commute)
  have 1: "opcode = LOAD_A_VAL \<Longrightarrow> ?goal"
    using ir by (simp add: t exec_LOAD_A_VAL InstructionSet_defs)
  have 2: "opcode = LOAD_B_VAL \<Longrightarrow> ?goal"
    using ir by (simp add: t exec_LOAD_B_VAL InstructionSet_defs)
  have 3: "opcode = LOAD_A_MEM \<Longrightarrow> ?goal"
    using ir by (simp add: t exec_LOAD_A_MEM InstructionSet_defs)
  have 4: "opcode = LOAD_B_MEM \<Longrightarrow> ?goal"
    using ir by (simp add: t exec_LOAD_B_MEM InstructionSet_defs)
  have 5: "opcode = STORE_A \<Longrightarrow> ?goal"
    using ir by (simp add: t exec_STORE_A InstructionSet_defs)
  have 6: "opcode = STORE_B \<Longrightarrow> ?goal"
    using ir by (simp add: t exec_STORE_B InstructionSet_defs)
  have 7: "opcode = JMP \<Longrightarrow> ?goal"
    using ir by (simp add: t exec_JMP)
  show ?thesis using assms(5) 1 2 3 4 5 6 7 by blast
qed

theorem two_byte_pc_witness:
  "\<not> halted load_a_loaded
   \<and> \<not> (IE (registers load_a_loaded) = 1 \<and> interruptQueue load_a_loaded \<noteq> [])
   \<and> PC (registers load_a_loaded) = Num 0
   \<and> mem_get (memory load_a_loaded) (Num 0) = Num LOAD_A_VAL
   \<and> LOAD_A_VAL \<in> {LOAD_A_VAL, LOAD_B_VAL, LOAD_A_MEM, LOAD_B_MEM, STORE_A, STORE_B, JMP}
   \<and> (\<exists>s'. tick load_a_loaded = Returned s' \<and> PC (registers s') = Num 2)"
proof -
  have h: "\<not> halted load_a_loaded"
    "\<not> (IE (registers load_a_loaded) = 1 \<and> interruptQueue load_a_loaded \<noteq> [])"
    "PC (registers load_a_loaded) = Num 0"
    "mem_get (memory load_a_loaded) (Num 0) = Num LOAD_A_VAL"
    "LOAD_A_VAL \<in> {LOAD_A_VAL, LOAD_B_VAL, LOAD_A_MEM, LOAD_B_MEM, STORE_A, STORE_B, JMP}"
    by (simp_all add: load_a_loaded_def eval_defs)
  have j: "LOAD_A_VAL \<noteq> JMP" by (simp add: InstructionSet_defs)
  show ?thesis
    using two_byte_pc[OF h] h j by simp
qed

text \<open>
  C3. The halted state is terminal: from a state with \<open>halted = true\<close>, any number of
  calls of \<open>tick\<close> return, and leave the registers (\<open>A\<close>, \<open>B\<close>, \<open>IR\<close>, \<open>MAR\<close>, \<open>MDR\<close>,
  \<open>PC\<close>, \<open>SP\<close>, \<open>IE\<close>), the memory, the interrupt queue and the halted flag as they
  were.
\<close>

theorem halted_is_terminal:
  "halted s \<Longrightarrow>
   \<exists>s'. ticks n s = Returned s' \<and> registers s' = registers s \<and> memory s' = memory s
     \<and> interruptQueue s' = interruptQueue s \<and> halted s'"
proof (induction n arbitrary: s)
  case 0
  then show ?case by simp
next
  case (Suc n)
  let ?t = "s\<lparr> logMessage := LogCpuHalted \<rparr>"
  have "halted ?t" using Suc.prems by simp
  from Suc.IH[OF this] obtain s' where "ticks n ?t = Returned s'" "registers s' = registers ?t"
    "memory s' = memory ?t" "interruptQueue s' = interruptQueue ?t" "halted s'" by blast
  then show ?case using Suc.prems by (simp add: tick_halted)
qed

theorem halted_is_terminal_witness:
  "halted halted_example
   \<and> mem_get (memory halted_example) (Num 16) = Num 5
   \<and> (\<exists>s'. ticks 3 halted_example = Returned s' \<and> registers s' = registers halted_example
         \<and> memory s' = memory halted_example
         \<and> interruptQueue s' = interruptQueue halted_example \<and> halted s')"
proof -
  have h: "halted halted_example"
    by (simp add: halted_example_def eval_defs)
  have m: "mem_get (memory halted_example) (Num 16) = Num 5"
    by (simp add: halted_example_def eval_defs)
  show ?thesis
    using halted_is_terminal[OF h, of 3] h m by simp
qed

text \<open>
  C4 (as stated, refuted). The claim: for a CPU constructed with capacity \<open>C\<close>,
  \<open>SP \<in> [0, C - 1]\<close> initially. The constructor accepts the capacity 0, and
  \<^verbatim>\<open>new CPU(0)\<close> has \<open>SP = -1\<close>, outside the (empty) range.
\<close>

theorem sp_stays_in_range_counterexample:
  "SP (registers (constructor 0)) = - 1
   \<and> \<not> (0 \<le> SP (registers (constructor 0)) \<and> SP (registers (constructor 0)) \<le> int 0 - 1)
   \<and> \<not> sp_in_range (constructor 0)"
  by (simp add: constructor_def sp_in_range_def)

text \<open>
  C4 (amended). For a CPU constructed with a capacity \<open>C\<close> of at least 1, \<open>SP = C - 1\<close>
  initially, and after any sequence of the public operations (\<open>loadProgram\<close>,
  \<open>requestInterrupt\<close>, \<open>tick\<close>) the memory has \<open>C\<close> cells and \<open>SP \<in> [0, C - 1]\<close>. Each
  public operation keeps \<open>SP\<close> in range from any state where it is in range. A push
  decrements \<open>SP\<close> only when \<open>SP > 0\<close> and a pop increments it only when \<open>SP < C - 1\<close>:
  both saturate.
\<close>

theorem sp_stays_in_range:
  assumes "0 < C"
  shows "SP (registers (constructor C)) = int C - 1
       \<and> length (cells (memory (run C ops))) = C
       \<and> 0 \<le> SP (registers (run C ops)) \<and> SP (registers (run C ops)) \<le> int C - 1
       \<and> (sp_in_range s \<longrightarrow>
            sp_in_range (perform s op) \<and> mem_length (memory (perform s op)) = mem_length (memory s))
       \<and> SP (registers (pushToStack s v)) =
            (if 0 < SP (registers s) then SP (registers s) - 1 else SP (registers s))
       \<and> SP (registers (snd (popFromStack s))) =
            (if SP (registers s) < mem_length (memory s) - 1 then SP (registers s) + 1
             else SP (registers s))"
proof -
  have i: "length (cells (memory (constructor C))) = C" "0 \<le> SP (registers (constructor C))"
    "SP (registers (constructor C)) \<le> int C - 1"
    using assms by (simp_all add: constructor_def)
  have r: "length (cells (memory (run C ops))) = C
       \<and> 0 \<le> SP (registers (run C ops)) \<and> SP (registers (run C ops)) \<le> int C - 1"
    unfolding run_def using i by (rule foldl_perform_capacity)
  have 1: "SP (registers (constructor C)) = int C - 1"
    by (simp add: constructor_def)
  have 3: "sp_in_range s \<longrightarrow>
            sp_in_range (perform s op) \<and> mem_length (memory (perform s op)) = mem_length (memory s)"
    using perform_in_range by blast
  have 4: "SP (registers (pushToStack s v)) =
            (if 0 < SP (registers s) then SP (registers s) - 1 else SP (registers s))"
    by (simp add: pushToStack_registers)
  have 5: "SP (registers (snd (popFromStack s))) =
            (if SP (registers s) < mem_length (memory s) - 1 then SP (registers s) + 1
             else SP (registers s))"
    by (simp add: popFromStack_snd)
  show ?thesis using 1 3 4 5 r by blast
qed

theorem sp_stays_in_range_witness:
  "(0::nat) < 256 \<and> sp_in_range (run 256 push_ops)
   \<and> SP (registers (constructor 256)) = 255
   \<and> length (cells (memory (run 256 push_ops))) = 256
   \<and> SP (registers (run 256 push_ops)) = 254
   \<and> sp_in_range (perform (run 256 push_ops) Tick)
   \<and> SP (registers (perform (run 256 push_ops) Tick)) = 255"
proof -
  have h: "(0::nat) < 256" by simp
  have i: "sp_in_range (run 256 push_ops)"
    by (simp add: push_ops_def sp_in_range_def eval_defs)
  have v: "SP (registers (run 256 push_ops)) = 254"
    "SP (registers (perform (run 256 push_ops) Tick)) = 255"
    by (simp_all add: push_ops_def eval_defs)
  show ?thesis
    using sp_stays_in_range[OF h, of push_ops "run 256 push_ops" Tick] h i v by simp
qed




text \<open>
  C6. For a byte \<open>v \<in> [0, 255]\<close> and a state whose \<open>SP\<close> is an address above 0
  (\<open>0 < SP \<le> C - 1\<close>, so that the push does not saturate), a push of \<open>v\<close> followed at
  once by a pop returns \<open>v\<close> and leaves \<open>SP\<close> as it was before the push.
\<close>

theorem push_then_pop:
  assumes "0 \<le> v" "v \<le> 255" "0 < SP (registers s)" "sp_in_range s"
  shows "fst (popFromStack (pushToStack s (Num v))) = Num v
       \<and> SP (registers (snd (popFromStack (pushToStack s (Num v))))) = SP (registers s)"
proof -
  have r: "0 \<le> SP (registers s)" "SP (registers s) < mem_length (memory s)"
    using assms(3,4) by (simp_all add: sp_in_range_def)
  have m: "mem_get (mem_set (memory s) (Num (SP (registers s))) (Num v)) (Num (SP (registers s)))
             = Num v"
    using mem_get_mem_set_same[OF r, of v] assms(1,2) by simp
  show ?thesis
    using assms(3) r m
    by (simp add: popFromStack_fst popFromStack_snd pushToStack_memory pushToStack_registers
        mem_length_mem_set)
qed

theorem push_then_pop_witness:
  "(0::int) \<le> 200 \<and> (200::int) \<le> 255 \<and> 0 < SP (registers (constructor 256))
   \<and> sp_in_range (constructor 256)
   \<and> fst (popFromStack (pushToStack (constructor 256) (Num 200))) = Num 200
   \<and> SP (registers (snd (popFromStack (pushToStack (constructor 256) (Num 200))))) = 255"
proof -
  have h: "(0::int) \<le> 200" "(200::int) \<le> 255" "0 < SP (registers (constructor 256))"
    "sp_in_range (constructor 256)"
    by (simp_all add: constructor_def mem_length_def max_array_length_def sp_in_range_def)
  have v: "SP (registers (constructor 256)) = 255"
    by (simp add: constructor_def)
  show ?thesis
    using push_then_pop[OF h] h v by simp
qed

text \<open>
  C7. In a fetch-execute tick that fetches \<open>IRET\<close>: \<open>SP\<close> is incremented unless it is
  \<open>C - 1\<close> or more, \<open>PC\<close> becomes the memory value at the new \<open>SP\<close>, \<open>IE\<close> becomes 1, and
  \<open>A\<close>, \<open>B\<close> and the memory are unchanged. With \<open>SP\<close> in range the tick returns.
\<close>

theorem iret_restores_pc_only:
  assumes "\<not> halted s" "\<not> (IE (registers s) = 1 \<and> interruptQueue s \<noteq> [])"
    "PC (registers s) = Num p" "mem_get (memory s) (Num p) = Num IRET"
  shows "SP (registers (state_of (tick s))) =
           (if SP (registers s) < mem_length (memory s) - 1 then SP (registers s) + 1
            else SP (registers s))
       \<and> PC (registers (state_of (tick s))) =
           mem_get (memory s) (Num (SP (registers (state_of (tick s)))))
       \<and> IE (registers (state_of (tick s))) = 1
       \<and> A (registers (state_of (tick s))) = A (registers s)
       \<and> B (registers (state_of (tick s))) = B (registers s)
       \<and> memory (state_of (tick s)) = memory s
       \<and> (sp_in_range s \<longrightarrow> (\<exists>s'. tick s = Returned s'))"
proof -
  let ?f = "s\<lparr> registers := (registers s)\<lparr> MAR := Num p, IR := Num IRET, PC := Num (p + 1) \<rparr>,
               logMessage := LogFetch (Num IRET) (Num p) \<rparr>"
  let ?sp = "if SP (registers s) < mem_length (memory s) - 1 then SP (registers s) + 1
             else SP (registers s)"
  let ?v = "mem_get (memory s) (Num ?sp)"
  let ?s2 = "s\<lparr> registers := (registers s)\<lparr> MAR := Num p, IR := Num IRET, SP := ?sp,
                                             PC := ?v, IE := 1 \<rparr>,
               logMessage := LogFetch (Num IRET) (Num p) \<rparr>"
  have t: "tick s = decodeAndExecute ?f"
    using assms by (simp add: tick_fetch index_of_read(3)[OF assms(4)])
  have ir: "IR (registers ?f) = Num IRET" by simp
  have p: "popFromStack ?f = (?v, ?f\<lparr> registers := (registers ?f)\<lparr> SP := ?sp \<rparr> \<rparr>)"
    using popFromStack_fst[of ?f] popFromStack_snd[of ?f] by (simp add: prod_eq_iff)
  have e: "tick s = (if ?v = Undefined then TypeError ?s2
                     else Returned (?s2\<lparr> logMessage := LogIret ?v \<rparr>))"
    unfolding t exec_IRET[OF ir] p by (simp add: Let_def)
  have st: "state_of (tick s) = ?s2 \<or> state_of (tick s) = ?s2\<lparr> logMessage := LogIret ?v \<rparr>"
    unfolding e by simp
  have r: "sp_in_range s \<longrightarrow> ?v \<noteq> Undefined"
    by (simp add: sp_in_range_def mem_get.simps)
  have 1: "SP (registers (state_of (tick s))) = ?sp" using st by auto
  have 2: "PC (registers (state_of (tick s))) = ?v" using st by auto
  have 3: "IE (registers (state_of (tick s))) = 1" using st by auto
  have 4: "A (registers (state_of (tick s))) = A (registers s)" using st by auto
  have 5: "B (registers (state_of (tick s))) = B (registers s)" using st by auto
  have 6: "memory (state_of (tick s)) = memory s" using st by auto
  have 7: "sp_in_range s \<longrightarrow> (\<exists>s'. tick s = Returned s')"
    using r unfolding e by simp
  show ?thesis unfolding 1 using 2 3 4 5 6 7 by blast
qed

theorem iret_restores_pc_only_witness:
  "\<not> halted in_service \<and> \<not> (IE (registers in_service) = 1 \<and> interruptQueue in_service \<noteq> [])
   \<and> PC (registers in_service) = Num 128 \<and> mem_get (memory in_service) (Num 128) = Num IRET
   \<and> sp_in_range in_service \<and> SP (registers in_service) = 254
   \<and> SP (registers (state_of (tick in_service))) = 255
   \<and> PC (registers (state_of (tick in_service))) = Num 33
   \<and> IE (registers (state_of (tick in_service))) = 1
   \<and> (\<exists>s'. tick in_service = Returned s')"
proof -
  have h: "\<not> halted in_service"
    "\<not> (IE (registers in_service) = 1 \<and> interruptQueue in_service \<noteq> [])"
    "PC (registers in_service) = Num 128" "mem_get (memory in_service) (Num 128) = Num IRET"
    by (simp_all add: in_service_def eval_defs)
  have v: "sp_in_range in_service" "SP (registers in_service) = 254"
    "mem_length (memory in_service) = 256"
    "mem_get (memory in_service) (Num 255) = Num 33"
    by (simp_all add: in_service_def sp_in_range_def eval_defs)
  show ?thesis
    using iret_restores_pc_only[OF h] h v by simp
qed

text \<open>
  C8. In a fetch-execute tick that fetches a byte \<open>b \<ge> 16\<close>, no opcode, at address
  \<open>p\<close>: the tick returns, with \<open>IR = b\<close>, \<open>MAR = p\<close>, \<open>PC = p + 1\<close>, and \<open>A\<close>, \<open>B\<close>,
  \<open>SP\<close>, \<open>IE\<close>, the memory, the interrupt queue and the halted flag unchanged.
\<close>

theorem unknown_opcode_is_skipped:
  assumes "\<not> halted s" "\<not> (IE (registers s) = 1 \<and> interruptQueue s \<noteq> [])"
    "PC (registers s) = Num p" "mem_get (memory s) (Num p) = Num b" "16 \<le> b"
  shows "\<exists>s'. tick s = Returned s' \<and> IR (registers s') = Num b \<and> MAR (registers s') = Num p
     \<and> PC (registers s') = Num (p + 1)
     \<and> A (registers s') = A (registers s) \<and> B (registers s') = B (registers s)
     \<and> SP (registers s') = SP (registers s) \<and> IE (registers s') = IE (registers s)
     \<and> memory s' = memory s \<and> interruptQueue s' = interruptQueue s
     \<and> halted s' = halted s"
  using assms by (simp add: tick_fetch exec_unknown index_of_read(3)[OF assms(4)])

theorem unknown_opcode_is_skipped_witness:
  "\<not> halted data_loaded
   \<and> \<not> (IE (registers data_loaded) = 1 \<and> interruptQueue data_loaded \<noteq> [])
   \<and> PC (registers data_loaded) = Num 0 \<and> mem_get (memory data_loaded) (Num 0) = Num 200
   \<and> (16::int) \<le> 200
   \<and> (\<exists>s'. tick data_loaded = Returned s' \<and> IR (registers s') = Num 200
         \<and> MAR (registers s') = Num 0 \<and> PC (registers s') = Num 1
         \<and> memory s' = memory data_loaded \<and> halted s' = halted data_loaded)"
proof -
  have h: "\<not> halted data_loaded"
    "\<not> (IE (registers data_loaded) = 1 \<and> interruptQueue data_loaded \<noteq> [])"
    "PC (registers data_loaded) = Num 0" "mem_get (memory data_loaded) (Num 0) = Num 200"
    "(16::int) \<le> 200"
    by (simp_all add: data_loaded_def eval_defs)
  show ?thesis
    using unknown_opcode_is_skipped[OF h] h by auto
qed

text \<open>
  C9. A request for a code that is in the queue changes nothing. After two requests for
  a code in a row, from a queue without repeated codes, the queue holds the code exactly
  once. No public operation introduces a repeated code, so the queue of a CPU never
  holds a code more than once.
\<close>

theorem queue_holds_each_code_once:
  "(c \<in> set (interruptQueue s) \<longrightarrow> requestInterrupt s c = s)
   \<and> (distinct (interruptQueue s) \<longrightarrow>
        count_list (interruptQueue (requestInterrupt (requestInterrupt s c) c)) c = 1)
   \<and> (distinct (interruptQueue s) \<longrightarrow> distinct (interruptQueue (perform s op)))
   \<and> distinct (interruptQueue (run C ops))"
proof -
  have 1: "c \<in> set (interruptQueue s) \<longrightarrow> requestInterrupt s c = s"
    by (simp add: requestInterrupt_def)
  have m: "c \<in> set (interruptQueue (requestInterrupt s c))"
    by (simp add: requestInterrupt_def)
  have 2: "distinct (interruptQueue s) \<longrightarrow>
        count_list (interruptQueue (requestInterrupt (requestInterrupt s c) c)) c = 1"
  proof
    assume d: "distinct (interruptQueue s)"
    have "distinct (interruptQueue (requestInterrupt (requestInterrupt s c) c))"
      by (intro distinct_requestInterrupt d)
    moreover have "c \<in> set (interruptQueue (requestInterrupt (requestInterrupt s c) c))"
      by (simp add: requestInterrupt_def)
    ultimately show "count_list (interruptQueue (requestInterrupt (requestInterrupt s c) c)) c = 1"
      by (rule count_list_distinct)
  qed
  have 3: "distinct (interruptQueue s) \<longrightarrow> distinct (interruptQueue (perform s op))"
    by (simp add: distinct_perform)
  have 4: "distinct (interruptQueue (run C ops))"
    unfolding run_def by (rule distinct_foldl_perform) (simp add: constructor_def)
  show ?thesis using 1 2 3 4 by blast
qed

theorem queue_holds_each_code_once_witness:
  "TIMER \<in> set (interruptQueue timer_requested) \<and> distinct (interruptQueue timer_requested)
   \<and> requestInterrupt timer_requested TIMER = timer_requested
   \<and> interruptQueue (requestInterrupt (requestInterrupt (constructor 256) TIMER) TIMER) = [TIMER]
   \<and> count_list (interruptQueue (requestInterrupt (requestInterrupt timer_requested TIMER) TIMER)) TIMER = 1
   \<and> distinct (interruptQueue (perform timer_requested (RequestInterrupt TIMER)))"
proof -
  have h: "TIMER \<in> set (interruptQueue timer_requested)" "distinct (interruptQueue timer_requested)"
    by (simp_all add: timer_requested_def eval_defs)
  have v: "interruptQueue (requestInterrupt (requestInterrupt (constructor 256) TIMER) TIMER) = [TIMER]"
    by (simp add: eval_defs)
  note t = queue_holds_each_code_once[of TIMER timer_requested "RequestInterrupt TIMER" 256 "[]"]
  have a: "requestInterrupt timer_requested TIMER = timer_requested"
    using t h by blast
  have b: "count_list (interruptQueue (requestInterrupt (requestInterrupt timer_requested TIMER) TIMER)) TIMER = 1"
    using t h by blast
  have c: "distinct (interruptQueue (perform timer_requested (RequestInterrupt TIMER)))"
    using t h by blast
  show ?thesis
    using h v a b c by blast
qed

text \<open>
  C10. Every memory cell holds a value in \<open>[0, 255]\<close>, and every write to a cell stores
  the written number modulo 256: a write through \<open>mem_set\<close>, the write of \<open>STORE_A\<close> and
  \<open>STORE_B\<close>, the push of \<open>pushToStack\<close>, of \<open>PUSH_A\<close> and \<open>PUSH_B\<close>, and of the
  interrupt service (which pushes \<open>PC\<close>), and each byte that \<open>loadProgram\<close> writes. So
  the cell can differ from the register written, when that is above 255.
\<close>

theorem memory_holds_bytes:
  "(0 \<le> i \<and> i < mem_length m \<longrightarrow>
      (\<exists>n. mem_get m (Num i) = Num n \<and> 0 \<le> n \<and> n \<le> 255))
   \<and> (0 \<le> i \<and> i < mem_length m \<longrightarrow>
      mem_get (mem_set m (Num i) (Num v)) (Num i) = Num (v mod 256))
   \<and> (\<not> halted s1 \<and> \<not> (IE (registers s1) = 1 \<and> interruptQueue s1 \<noteq> [])
       \<and> PC (registers s1) = Num p1 \<and> mem_get (memory s1) (Num p1) = Num op1
       \<and> mem_get (memory s1) (Num (p1 + 1)) = Num addr
       \<and> 0 \<le> addr \<and> addr < mem_length (memory s1)
       \<and> ((op1 = STORE_A \<and> A (registers s1) = Num a1)
            \<or> (op1 = STORE_B \<and> B (registers s1) = Num a1)) \<longrightarrow>
      mem_get (memory (state_of (tick s1))) (Num addr) = Num (a1 mod 256))
   \<and> (sp_in_range s2 \<longrightarrow>
      mem_get (memory (pushToStack s2 (Num v2))) (Num (SP (registers s2))) = Num (v2 mod 256))
   \<and> (\<not> halted s3 \<and> \<not> (IE (registers s3) = 1 \<and> interruptQueue s3 \<noteq> [])
       \<and> PC (registers s3) = Num p3 \<and> mem_get (memory s3) (Num p3) = Num op3
       \<and> sp_in_range s3
       \<and> ((op3 = PUSH_A \<and> A (registers s3) = Num a3)
            \<or> (op3 = PUSH_B \<and> B (registers s3) = Num a3)) \<longrightarrow>
      mem_get (memory (state_of (tick s3))) (Num (SP (registers s3))) = Num (a3 mod 256))
   \<and> (\<not> halted s4 \<and> IE (registers s4) = 1 \<and> interruptQueue s4 = c # q \<and> c \<noteq> 0
       \<and> sp_in_range s4 \<and> PC (registers s4) = Num pc \<longrightarrow>
      mem_get (memory (state_of (tick s4))) (Num (SP (registers s4))) = Num (pc mod 256))
   \<and> (k < length program \<and> 0 \<le> startAddress + int k
       \<and> startAddress + int k < mem_length (memory s5) \<longrightarrow>
      mem_get (memory (loadProgram s5 program startAddress)) (Num (startAddress + int k))
        = Num (program ! k mod 256))"
proof -
  have 1: "0 \<le> i \<and> i < mem_length m \<longrightarrow>
      (\<exists>n. mem_get m (Num i) = Num n \<and> 0 \<le> n \<and> n \<le> 255)"
    using mem_get_is_byte by blast
  have 2: "0 \<le> i \<and> i < mem_length m \<longrightarrow>
      mem_get (mem_set m (Num i) (Num v)) (Num i) = Num (v mod 256)"
    using mem_get_mem_set_same by blast
  have 3: "\<not> halted s1 \<and> \<not> (IE (registers s1) = 1 \<and> interruptQueue s1 \<noteq> [])
       \<and> PC (registers s1) = Num p1 \<and> mem_get (memory s1) (Num p1) = Num op1
       \<and> mem_get (memory s1) (Num (p1 + 1)) = Num addr
       \<and> 0 \<le> addr \<and> addr < mem_length (memory s1)
       \<and> ((op1 = STORE_A \<and> A (registers s1) = Num a1)
            \<or> (op1 = STORE_B \<and> B (registers s1) = Num a1)) \<longrightarrow>
      mem_get (memory (state_of (tick s1))) (Num addr) = Num (a1 mod 256)"
    using store_tick[of s1 p1 op1 addr a1] by blast
  have 4: "sp_in_range s2 \<longrightarrow>
      mem_get (memory (pushToStack s2 (Num v2))) (Num (SP (registers s2))) = Num (v2 mod 256)"
    using pushToStack_stored by blast
  have 5: "\<not> halted s3 \<and> \<not> (IE (registers s3) = 1 \<and> interruptQueue s3 \<noteq> [])
       \<and> PC (registers s3) = Num p3 \<and> mem_get (memory s3) (Num p3) = Num op3
       \<and> sp_in_range s3
       \<and> ((op3 = PUSH_A \<and> A (registers s3) = Num a3)
            \<or> (op3 = PUSH_B \<and> B (registers s3) = Num a3)) \<longrightarrow>
      mem_get (memory (state_of (tick s3))) (Num (SP (registers s3))) = Num (a3 mod 256)"
    using push_tick[of s3 p3 op3 a3] by blast
  have 6: "\<not> halted s4 \<and> IE (registers s4) = 1 \<and> interruptQueue s4 = c # q \<and> c \<noteq> 0
       \<and> sp_in_range s4 \<and> PC (registers s4) = Num pc \<longrightarrow>
      mem_get (memory (state_of (tick s4))) (Num (SP (registers s4))) = Num (pc mod 256)"
    using interrupt_push[of s4 c q pc] by blast
  have 7: "k < length program \<and> 0 \<le> startAddress + int k
       \<and> startAddress + int k < mem_length (memory s5) \<longrightarrow>
      mem_get (memory (loadProgram s5 program startAddress)) (Num (startAddress + int k))
        = Num (program ! k mod 256)"
    using loadProgram_stored by blast
  show ?thesis
    using 1 2 3 4 5 6 7 by (intro conjI)
qed

theorem memory_holds_bytes_witness:
  "((0::int) \<le> 16 \<and> 16 < mem_length (memory (constructor 256))
      \<and> mem_get (mem_set (memory (constructor 256)) (Num 16) (Num 300)) (Num 16) = Num 44)
   \<and> (\<not> halted store_ready
      \<and> \<not> (IE (registers store_ready) = 1 \<and> interruptQueue store_ready \<noteq> [])
      \<and> PC (registers store_ready) = Num 5 \<and> mem_get (memory store_ready) (Num 5) = Num STORE_A
      \<and> mem_get (memory store_ready) (Num (5 + 1)) = Num 16
      \<and> 16 < mem_length (memory store_ready) \<and> A (registers store_ready) = Num 300
      \<and> mem_get (memory (state_of (tick store_ready))) (Num 16) = Num 44)
   \<and> (sp_in_range push_ready \<and> \<not> halted push_ready
      \<and> \<not> (IE (registers push_ready) = 1 \<and> interruptQueue push_ready \<noteq> [])
      \<and> PC (registers push_ready) = Num 5 \<and> mem_get (memory push_ready) (Num 5) = Num PUSH_A
      \<and> A (registers push_ready) = Num 300 \<and> SP (registers push_ready) = 255
      \<and> mem_get (memory (pushToStack push_ready (Num 300))) (Num 255) = Num 44
      \<and> mem_get (memory (state_of (tick push_ready))) (Num 255) = Num 44)
   \<and> (\<not> halted far_pending \<and> IE (registers far_pending) = 1
      \<and> interruptQueue far_pending = TIMER # [] \<and> TIMER \<noteq> 0 \<and> sp_in_range far_pending
      \<and> PC (registers far_pending) = Num 300 \<and> SP (registers far_pending) = 255
      \<and> mem_get (memory (state_of (tick far_pending))) (Num 255) = Num 44)
   \<and> ((1::nat) < length [300, 511 :: int] \<and> (0::int) \<le> 10 + int 1
      \<and> 10 + int 1 < mem_length (memory (constructor 256))
      \<and> mem_get (memory (loadProgram (constructor 256) [300, 511] 10)) (Num (10 + int 1))
           = Num 255)"
proof -
  have m: "(0::int) \<le> 16" "16 < mem_length (memory (constructor 256))"
    by (simp_all add: constructor_def mem_length_def max_array_length_def)
  have s: "\<not> halted store_ready"
    "\<not> (IE (registers store_ready) = 1 \<and> interruptQueue store_ready \<noteq> [])"
    "PC (registers store_ready) = Num 5" "mem_get (memory store_ready) (Num 5) = Num STORE_A"
    "mem_get (memory store_ready) (Num (5 + 1)) = Num 16"
    "16 < mem_length (memory store_ready)" "A (registers store_ready) = Num 300"
    by (simp_all add: store_ready_def eval_defs)
  have p: "sp_in_range push_ready" "\<not> halted push_ready"
    "\<not> (IE (registers push_ready) = 1 \<and> interruptQueue push_ready \<noteq> [])"
    "PC (registers push_ready) = Num 5" "mem_get (memory push_ready) (Num 5) = Num PUSH_A"
    "A (registers push_ready) = Num 300" "SP (registers push_ready) = 255"
    by (simp_all add: push_ready_def sp_in_range_def eval_defs)
  have f: "\<not> halted far_pending" "IE (registers far_pending) = 1"
    "interruptQueue far_pending = TIMER # []" "TIMER \<noteq> 0" "sp_in_range far_pending"
    "PC (registers far_pending) = Num 300" "SP (registers far_pending) = 255"
    by (simp_all add: far_pending_def sp_in_range_def eval_defs)
  have l: "(1::nat) < length [300, 511 :: int]" "(0::int) \<le> 10 + int 1"
    "10 + int 1 < mem_length (memory (constructor 256))"
    by (simp_all add: constructor_def mem_length_def max_array_length_def)
  note t = memory_holds_bytes[of 16 "memory (constructor 256)" 300
      store_ready 5 STORE_A 16 300 push_ready 300 push_ready 5 PUSH_A 300
      far_pending TIMER "[]" 300 1 "[300, 511]" 10 "constructor 256"]
  have 1: "mem_get (mem_set (memory (constructor 256)) (Num 16) (Num 300)) (Num 16) = Num 44"
    using t m by simp
  have 2: "mem_get (memory (state_of (tick store_ready))) (Num 16) = Num 44"
    using t s by simp
  have 3: "mem_get (memory (pushToStack push_ready (Num 300))) (Num 255) = Num 44"
    using t p by simp
  have 4: "mem_get (memory (state_of (tick push_ready))) (Num 255) = Num 44"
    using t p by simp
  have 5: "mem_get (memory (state_of (tick far_pending))) (Num 255) = Num 44"
    using t f by simp
  have 6: "mem_get (memory (loadProgram (constructor 256) [300, 511] 10)) (Num (10 + int 1))
           = Num 255"
    using t l by simp
  show ?thesis
    using m s p f l 1 2 3 4 5 6 by (intro conjI)
qed

end
